theory Spec2Isabelle
  imports Complex_Main "HOL-Library.Log_Nat"
begin

section \<open>ControlPanel.vue\<close>

text \<open>
  The script of the control panel holds two refs, both initialised to \<open>false\<close>, and three
  click handlers. A handler writes the refs and emits one event to the parent component;
  the model returns the new refs together with the events emitted, in order.
  \<^verbatim>\<open>
  const isMonitoring = ref(false)
  const hasData = ref(false)
  const emit = defineEmits(['start', 'stop', 'show-stats'])
  const startMonitoring = () => { isMonitoring.value = true; hasData.value = true; emit('start') }
  const stopMonitoring = () => { isMonitoring.value = false; emit('stop') }
  const showStatistics = () => { emit('show-stats') }
  \<close>
\<close>

record ControlPanel =
  isMonitoring :: bool
  hasData :: bool

datatype Emit = EmitStart | EmitStop | EmitShowStats

definition panel_init :: ControlPanel where
  "panel_init = \<lparr>isMonitoring = False, hasData = False\<rparr>"

definition startMonitoring :: "ControlPanel \<Rightarrow> ControlPanel \<times> Emit list" where
  "startMonitoring p = (p\<lparr>isMonitoring := True, hasData := True\<rparr>, [EmitStart])"

definition stopMonitoring :: "ControlPanel \<Rightarrow> ControlPanel \<times> Emit list" where
  "stopMonitoring p = (p\<lparr>isMonitoring := False\<rparr>, [EmitStop])"

definition showStatistics :: "ControlPanel \<Rightarrow> ControlPanel \<times> Emit list" where
  "showStatistics p = (p, [EmitShowStats])"

text \<open>
  The three buttons of the template. Their \<open>:disable\<close> bindings read the refs and write
  nothing, so every click runs its handler.
\<close>

datatype Click = ClickStart | ClickStop | ClickShowStats

fun click :: "Click \<Rightarrow> ControlPanel \<Rightarrow> ControlPanel \<times> Emit list" where
  "click ClickStart p = startMonitoring p"
| "click ClickStop p = stopMonitoring p"
| "click ClickShowStats p = showStatistics p"

text \<open>A sequence of clicks: the refs after the last one, and all the events emitted.\<close>

fun clicks :: "Click list \<Rightarrow> ControlPanel \<Rightarrow> ControlPanel \<times> Emit list" where
  "clicks [] p = (p, [])"
| "clicks (c # cs) p =
     (case click c p of (p', es) \<Rightarrow>
        (case clicks cs p' of (p'', es') \<Rightarrow> (p'', es @ es')))"

text \<open>The value bound to the \<open>disable\<close> attribute of the statistics button: \<open>!hasData\<close>.\<close>

definition showStatistics_disable :: "ControlPanel \<Rightarrow> bool" where
  "showStatistics_disable p = (\<not> hasData p)"

section \<open>The Pinia store of docs/PROJECT.md (stores/sensor.ts)\<close>

text \<open>
  \<^verbatim>\<open>
  const readings = ref<SensorReading[]>([])
  const isMonitoring = ref(false)
  const latestReading = computed(() => readings.value[readings.value.length - 1])
  const readingCount = computed(() => readings.value.length)
  function addReading(reading: SensorReading) {
    readings.value.push(reading)
    if (readings.value.length > 100) { readings.value.shift() }
  }
  function setMonitoring(status: boolean) { isMonitoring.value = status }
  \<close>
  The interface \<open>SensorReading\<close> (types/sensor.ts) is not among the sources: the store is
  polymorphic in the type of a reading. The store's flag is named \<open>storeIsMonitoring\<close>,
  the panel has an \<open>isMonitoring\<close> of its own.
\<close>

record 'r SensorStore =
  readings :: "'r list"
  storeIsMonitoring :: bool

definition store_init :: "'r SensorStore" where
  "store_init = \<lparr>readings = [], storeIsMonitoring = False\<rparr>"

text \<open>Reading index \<open>length - 1\<close> of an empty array gives \<open>undefined\<close>: \<open>None\<close> here.\<close>

definition latestReading :: "'r SensorStore \<Rightarrow> 'r option" where
  "latestReading s = (if readings s = [] then None else Some (last (readings s)))"

definition readingCount :: "'r SensorStore \<Rightarrow> nat" where
  "readingCount s = length (readings s)"

text \<open>\<open>push\<close> appends at the end, \<open>shift\<close> removes the element at index 0.\<close>

definition addReading :: "'r \<Rightarrow> 'r SensorStore \<Rightarrow> 'r SensorStore" where
  "addReading reading s =
     (let pushed = readings s @ [reading]
      in s\<lparr>readings := (if length pushed > 100 then tl pushed else pushed)\<rparr>)"

definition setMonitoring :: "bool \<Rightarrow> 'r SensorStore \<Rightarrow> 'r SensorStore" where
  "setMonitoring status s = s\<lparr>storeIsMonitoring := status\<rparr>"

section \<open>The composable of docs/PROJECT.md (composables/useSensorMonitor.ts)\<close>

text \<open>
  \<^verbatim>\<open>
  const startMonitoring = async () => { await invoke('start_monitoring'); sensorStore.setMonitoring(true) }
  const stopMonitoring = async () => { await invoke('stop_monitoring'); sensorStore.setMonitoring(false) }
  const setupEventListener = async () => {
    await listen('sensor-data', (event) => { sensorStore.addReading(event.payload) })
  }
  \<close>
  The commands run in the backend, which is not among the sources; they return
  \<open>Result<(), String>\<close>, and the outcome of \<open>invoke\<close> is a parameter of the model. A
  rejected \<open>invoke\<close> throws at the \<open>await\<close>: the store is not written and the error goes
  to the caller.
\<close>

type_synonym invoke_result = "string + unit"

definition useSensorMonitor_startMonitoring ::
    "invoke_result \<Rightarrow> 'r SensorStore \<Rightarrow> invoke_result \<times> 'r SensorStore" where
  "useSensorMonitor_startMonitoring res s =
     (case res of Inl e \<Rightarrow> (Inl e, s) | Inr u \<Rightarrow> (Inr u, setMonitoring True s))"

definition useSensorMonitor_stopMonitoring ::
    "invoke_result \<Rightarrow> 'r SensorStore \<Rightarrow> invoke_result \<times> 'r SensorStore" where
  "useSensorMonitor_stopMonitoring res s =
     (case res of Inl e \<Rightarrow> (Inl e, s) | Inr u \<Rightarrow> (Inr u, setMonitoring False s))"

text \<open>
  The listener adds the payload of each \<open>sensor-data\<close> event to the store; \<open>on_sensor_data\<close>
  delivers a sequence of events, first to last.
\<close>

definition on_sensor_data :: "'r list \<Rightarrow> 'r SensorStore \<Rightarrow> 'r SensorStore" where
  "on_sensor_data payloads s = fold addReading payloads s"

section \<open>MetricsDisplay.vue\<close>

text \<open>
  \<^verbatim>\<open>
  interface SensorMetrics { laserIntensity: number; temperature: number;
                            measurementRate: number; timestamp: string }
  const metrics = ref<SensorMetrics>({ laserIntensity: 0, temperature: 25,
                                       measurementRate: 10, timestamp: new Date().toISOString() })
  let updateInterval: number;
  onMounted(() => { updateInterval = setInterval(updateMetrics, 1000) })
  onUnmounted(() => { clearInterval(updateInterval) })
  const updateMetrics = () => {
    metrics.value = { laserIntensity: Math.floor(Math.random() * 100),
                      temperature: 25 + Math.random() * 10,
                      measurementRate: 5 + Math.random() * 15,
                      timestamp: new Date().toISOString() }
  }
  \<close>
  The three values of \<open>Math.random()\<close>, in the order of the calls, and the string of
  the clock are parameters.
\<close>

subsection \<open>Numbers\<close>

text \<open>
  A \<open>number\<close> is an IEEE 754 binary64 value. A finite one is written here as a pair of
  integers, mantissa \<open>m\<close> and exponent \<open>e\<close>, that stands for \<open>m * 2 ^ e\<close>; a
  number has several such pairs, all with the same value \<open>dval\<close>. A pair is a number
  when the mantissa fits 53 bits and the exponent is in the range of the format
  (subnormal numbers have exponent \<open>-1074\<close>).
\<close>

type_synonym double = "int \<times> int"

definition dval :: "double \<Rightarrow> real" where
  "dval d =
     (if 0 \<le> snd d then of_int (fst d) * 2 ^ nat (snd d)
      else of_int (fst d) / 2 ^ nat (- snd d))"

definition is_double :: "double \<Rightarrow> bool" where
  "is_double d = (\<bar>fst d\<bar> < 2 ^ 53 \<and> - 1074 \<le> snd d \<and> snd d \<le> 971)"

text \<open>
  Every arithmetic operation returns the exact result rounded to the nearest number, a
  tie going to the even mantissa. \<open>round_shift k m\<close> is \<open>m / 2 ^ k\<close> rounded so to an
  integer; \<open>shift\<close> is the number of low bits of an exact result that do not fit: those
  beyond 53 bits of mantissa, or below the exponent \<open>-1074\<close>. Overflow to \<open>Infinity\<close>
  (from \<open>2 ^ 1024\<close>) is not part of the model: the operands of this component are below
  \<open>2 ^ 7\<close>.
\<close>

definition round_shift :: "nat \<Rightarrow> int \<Rightarrow> int" where
  "round_shift k m =
     (let q = m div 2 ^ k; r = m mod 2 ^ k
      in if 2 * r > 2 ^ k \<or> (2 * r = 2 ^ k \<and> odd q) then q + 1 else q)"

definition shift :: "double \<Rightarrow> nat" where
  "shift d = nat (max (bitlen \<bar>fst d\<bar> - 53) (- 1074 - snd d))"

definition dround :: "double \<Rightarrow> double" where
  "dround d = (round_shift (shift d) (fst d), snd d + int (shift d))"

text \<open>The operators \<open>*\<close> and \<open>+\<close> on numbers.\<close>

definition dmul :: "double \<Rightarrow> double \<Rightarrow> double" where
  "dmul a b = dround (fst a * fst b, snd a + snd b)"

definition exact_sum :: "double \<Rightarrow> double \<Rightarrow> double" where
  "exact_sum a b =
     (let e = min (snd a) (snd b)
      in (fst a * 2 ^ nat (snd a - e) + fst b * 2 ^ nat (snd b - e), e))"

definition dadd :: "double \<Rightarrow> double \<Rightarrow> double" where
  "dadd a b = dround (exact_sum a b)"

text \<open>\<open>Math.floor\<close>: the greatest integer that is not above the number.\<close>

definition Math_floor :: "double \<Rightarrow> int" where
  "Math_floor d =
     (if 0 \<le> snd d then fst d * 2 ^ nat (snd d) else fst d div 2 ^ nat (- snd d))"

text \<open>\<open>Math.random()\<close> returns a number from 0 (included) up to 1 (excluded).\<close>

definition Math_random :: "double \<Rightarrow> bool" where
  "Math_random r = (is_double r \<and> 0 \<le> dval r \<and> dval r < 1)"

subsection \<open>The component\<close>

text \<open>The fields of the metrics hold the values of their numbers.\<close>

record SensorMetrics =
  laserIntensity :: real
  temperature :: real
  measurementRate :: real
  timestamp :: string

text \<open>
  The interval timers of the browser. \<open>setInterval\<close> registers a callback with its
  period in milliseconds and returns a fresh handle; \<open>clearInterval\<close> removes the timer
  of a handle, and does nothing for \<open>undefined\<close> or for a handle that has no timer.
\<close>

datatype Callback = UpdateMetrics

record Timers =
  nextHandle :: nat
  active :: "nat \<rightharpoonup> Callback \<times> nat"

definition timers_init :: Timers where
  "timers_init = \<lparr>nextHandle = 1, active = Map.empty\<rparr>"

definition setInterval :: "Callback \<Rightarrow> nat \<Rightarrow> Timers \<Rightarrow> nat \<times> Timers" where
  "setInterval cb ms T =
     (nextHandle T,
      T\<lparr>nextHandle := Suc (nextHandle T), active := (active T)(nextHandle T \<mapsto> (cb, ms))\<rparr>)"

definition clearInterval :: "nat option \<Rightarrow> Timers \<Rightarrow> Timers" where
  "clearInterval handle T =
     (case handle of None \<Rightarrow> T | Some h \<Rightarrow> T\<lparr>active := (active T)(h := None)\<rparr>)"

text \<open>The state of the component: the ref and the variable (\<open>undefined\<close> until mounted).\<close>

record MetricsDisplay =
  metrics :: SensorMetrics
  updateInterval :: "nat option"

definition display_init :: "string \<Rightarrow> MetricsDisplay" where
  "display_init now =
     \<lparr>metrics = \<lparr>laserIntensity = 0, temperature = 25, measurementRate = 10, timestamp = now\<rparr>,
      updateInterval = None\<rparr>"

definition updateMetrics ::
    "double \<Rightarrow> double \<Rightarrow> double \<Rightarrow> string \<Rightarrow> MetricsDisplay \<Rightarrow> MetricsDisplay" where
  "updateMetrics r1 r2 r3 now d =
     d\<lparr>metrics := \<lparr>laserIntensity = of_int (Math_floor (dmul r1 (100, 0))),
                    temperature = dval (dadd (25, 0) (dmul r2 (10, 0))),
                    measurementRate = dval (dadd (5, 0) (dmul r3 (15, 0))),
                    timestamp = now\<rparr>\<rparr>"

definition onMounted :: "MetricsDisplay \<times> Timers \<Rightarrow> MetricsDisplay \<times> Timers" where
  "onMounted dT =
     (case setInterval UpdateMetrics 1000 (snd dT) of
        (h, T') \<Rightarrow> ((fst dT)\<lparr>updateInterval := Some h\<rparr>, T'))"

definition onUnmounted :: "MetricsDisplay \<times> Timers \<Rightarrow> MetricsDisplay \<times> Timers" where
  "onUnmounted dT = (fst dT, clearInterval (updateInterval (fst dT)) (snd dT))"

text \<open>
  The period of the timer that the component holds, if it holds one: the second argument
  of the \<open>setInterval\<close> call whose handle is in \<open>updateInterval\<close>.
\<close>

definition tickIntervalMs :: "MetricsDisplay \<times> Timers \<Rightarrow> nat option" where
  "tickIntervalMs dT =
     (case updateInterval (fst dT) of
        None \<Rightarrow> None
      | Some h \<Rightarrow> map_option snd (active (snd dT) h))"

text \<open>
  The ranges of docs/PROJECT.md, Device Simulation: "Temperature monitoring (20-25
  degrees Celsius)" and "Laser intensity (500-2000 units)". The component has no
  distance and no processing time.
\<close>

definition documented_temperature :: "real \<times> real" where
  "documented_temperature = (20, 25)"

definition documented_intensity :: "real \<times> real" where
  "documented_intensity = (500, 2000)"

definition in_bounds :: "real \<Rightarrow> real \<times> real \<Rightarrow> bool" where
  "in_bounds x bounds = (fst bounds \<le> x \<and> x \<le> snd bounds)"

section \<open>The two components on one page\<close>

text \<open>
  The control panel, the metrics display and the timers of the browser, side by side.
  The page that holds the components (pages/index.vue) is not among the sources: the
  events that the panel emits are recorded in \<open>emitted\<close>, and no handler of them runs.
  The display declares no props and listens to no event; its timer callback is the only
  thing that runs when a timer fires, and it runs only when the handle has a timer.
\<close>

record App =
  panel :: ControlPanel
  display :: MetricsDisplay
  timers :: Timers
  emitted :: "Emit list"

datatype Event =
    Mounted
  | Unmounted
  | Clicked Click
  | TimerFired nat double double double string

definition app_init :: "string \<Rightarrow> App" where
  "app_init now =
     \<lparr>panel = panel_init, display = display_init now, timers = timers_init, emitted = []\<rparr>"

fun app_step :: "Event \<Rightarrow> App \<Rightarrow> App" where
  "app_step Mounted a =
     (case onMounted (display a, timers a) of (d, T) \<Rightarrow> a\<lparr>display := d, timers := T\<rparr>)"
| "app_step Unmounted a =
     (case onUnmounted (display a, timers a) of (d, T) \<Rightarrow> a\<lparr>display := d, timers := T\<rparr>)"
| "app_step (Clicked c) a =
     (case click c (panel a) of (p, es) \<Rightarrow> a\<lparr>panel := p, emitted := emitted a @ es\<rparr>)"
| "app_step (TimerFired h r1 r2 r3 now) a =
     (case active (timers a) h of
        None \<Rightarrow> a
      | Some (UpdateMetrics, ms) \<Rightarrow> a\<lparr>display := updateMetrics r1 r2 r3 now (display a)\<rparr>)"

definition app_steps :: "Event list \<Rightarrow> App \<Rightarrow> App" where
  "app_steps es a = fold app_step es a"

text \<open>The events of the component's life cycle, as opposed to clicks and timer ticks.\<close>

fun lifecycle :: "Event \<Rightarrow> bool" where
  "lifecycle Mounted = True"
| "lifecycle Unmounted = True"
| "lifecycle (Clicked c) = False"
| "lifecycle (TimerFired h r1 r2 r3 now) = False"

text \<open>
  A concrete run: the display is mounted, then monitoring is started and stopped again.
\<close>

definition stopped_while_mounted :: App where
  "stopped_while_mounted =
     app_steps [Mounted, Clicked ClickStart, Clicked ClickStop] (app_init ''t0'')"

section \<open>Statistics\<close>

text \<open>
  Modelled from the spec: the statistics aggregator (\<open>calculate_statistics\<close> of the
  backend, behind the command \<open>get_statistics\<close>) is not among the sources, which only
  name it. The specification, section 4.3: for an empty input, \<open>compute\<close> returns a
  Statistics value with count = 0 and all other fields as an explicit "undefined" marker;
  for a non-empty input, count = length, mean = arithmetic mean, min and max = extrema,
  standard deviation = population standard deviation, computed via the mean first, then
  the sum of squared deviations. The input is the sequence of the values of one numeric
  field (at minimum the distance); \<open>None\<close> is the "undefined" marker.
\<close>

record Statistics =
  count :: nat
  mean :: "real option"
  minimum :: "real option"
  maximum :: "real option"
  std_dev :: "real option"

definition compute :: "real list \<Rightarrow> Statistics" where
  "compute xs =
     (case xs of
        [] \<Rightarrow> \<lparr>count = 0, mean = None, minimum = None, maximum = None, std_dev = None\<rparr>
      | x # ys \<Rightarrow>
          (let n = real (length xs);
               m = sum_list xs / n
           in \<lparr>count = length xs,
               mean = Some m,
               minimum = Some (fold min ys x),
               maximum = Some (fold max ys x),
               std_dev = Some (sqrt (sum_list (map (\<lambda>v. (v - m)\<^sup>2) xs) / n))\<rparr>))"

section \<open>Properties of the control panel\<close>

lemma click_hasData: "hasData p \<Longrightarrow> hasData (fst (click c p))"
  by (cases c) (simp_all add: startMonitoring_def stopMonitoring_def showStatistics_def)

lemma clicks_hasData: "hasData p \<Longrightarrow> hasData (fst (clicks cs p))"
proof (induction cs arbitrary: p)
  case Nil
  then show ?case by simp
next
  case (Cons c cs)
  obtain p' es where c: "click c p = (p', es)" by (cases "click c p")
  obtain p'' es' where cs: "clicks cs p' = (p'', es')" by (cases "clicks cs p'")
  from Cons.prems c have "hasData p'" using click_hasData [of p c] by simp
  then have "hasData (fst (clicks cs p'))" by (rule Cons.IH)
  with c cs show ?case by simp
qed

text \<open>
  Claim C4. The monitoring state is the boolean \<open>isMonitoring\<close> (false: stopped, true:
  running), false initially. Starting while stopped makes it true, stopping while running
  makes it false, stopping while stopped leaves the whole panel state as it was, and
  starting while running is never an error: the flag stays true. Showing the statistics
  does not touch it.
\<close>

theorem monitoring_state_machine:
  "\<not> isMonitoring panel_init
   \<and> (\<not> isMonitoring p \<longrightarrow> isMonitoring (fst (startMonitoring p)))
   \<and> (isMonitoring p \<longrightarrow> \<not> isMonitoring (fst (stopMonitoring p)))
   \<and> (\<not> isMonitoring p \<longrightarrow> fst (stopMonitoring p) = p)
   \<and> (isMonitoring p \<longrightarrow> isMonitoring (fst (startMonitoring p)))
   \<and> (isMonitoring p \<and> hasData p \<longrightarrow> fst (startMonitoring p) = p)
   \<and> isMonitoring (fst (showStatistics p)) = isMonitoring p"
  by (simp add: panel_init_def startMonitoring_def stopMonitoring_def showStatistics_def)

theorem monitoring_state_machine_witness:
  "\<not> isMonitoring panel_init
   \<and> isMonitoring (fst (startMonitoring panel_init))
   \<and> \<not> isMonitoring (fst (stopMonitoring (fst (startMonitoring panel_init))))
   \<and> fst (stopMonitoring panel_init) = panel_init
   \<and> fst (startMonitoring (fst (startMonitoring panel_init))) = fst (startMonitoring panel_init)"
  using monitoring_state_machine [of panel_init]
    monitoring_state_machine [of "fst (startMonitoring panel_init)"]
  by (simp add: panel_init_def startMonitoring_def)

text \<open>
  Claim C9. \<open>hasData\<close> is true as soon as \<open>startMonitoring\<close> has run, whatever the panel
  state was and although the panel has received no reading, and it stays true over every
  later sequence of clicks: the \<open>disable\<close> binding of the statistics button stays false,
  also after a stop.
\<close>

theorem hasData_never_reset:
  "hasData (fst (startMonitoring p))
   \<and> hasData (fst (clicks cs (fst (startMonitoring p))))
   \<and> \<not> showStatistics_disable (fst (clicks cs (fst (startMonitoring p))))
   \<and> \<not> showStatistics_disable (fst (stopMonitoring (fst (clicks cs (fst (startMonitoring p))))))"
proof -
  have s: "hasData (fst (startMonitoring p))"
    by (simp add: startMonitoring_def)
  then have c: "hasData (fst (clicks cs (fst (startMonitoring p))))"
    by (rule clicks_hasData)
  then have "hasData (fst (stopMonitoring (fst (clicks cs (fst (startMonitoring p))))))"
    by (simp add: stopMonitoring_def)
  with s c show ?thesis
    by (simp add: showStatistics_disable_def)
qed

text \<open>
  Claim C10. On the refs of the panel, starting twice is starting once (both refs true) and
  stopping twice is stopping once (\<open>isMonitoring\<close> false, \<open>hasData\<close> as it was). The second
  call is not an error: it returns a state like the first and emits its event again.
\<close>

theorem start_stop_idempotent:
  "fst (startMonitoring (fst (startMonitoring p))) = fst (startMonitoring p)
   \<and> isMonitoring (fst (startMonitoring p)) \<and> hasData (fst (startMonitoring p))
   \<and> fst (stopMonitoring (fst (stopMonitoring p))) = fst (stopMonitoring p)
   \<and> \<not> isMonitoring (fst (stopMonitoring p))
   \<and> hasData (fst (stopMonitoring p)) = hasData p
   \<and> snd (clicks [ClickStart, ClickStart] p) = [EmitStart, EmitStart]
   \<and> snd (clicks [ClickStop, ClickStop] p) = [EmitStop, EmitStop]"
  by (simp add: startMonitoring_def stopMonitoring_def)

section \<open>Properties of the store\<close>

lemma readings_addReading:
  "readings (addReading r s) =
     (if length (readings s) \<ge> 100 then tl (readings s @ [r]) else readings s @ [r])"
  by (simp add: addReading_def Let_def)

lemma on_sensor_data_snoc:
  "on_sensor_data (rs @ [r]) s = addReading r (on_sensor_data rs s)"
  by (simp add: on_sensor_data_def)

lemma readings_on_sensor_data:
  "readings (on_sensor_data rs store_init) = drop (length rs - 100) rs"
proof (induction rs rule: rev_induct)
  case Nil
  show ?case by (simp add: on_sensor_data_def store_init_def)
next
  case (snoc r rs)
  show ?case
  proof (cases "length rs \<ge> 100")
    case True
    then have "Suc (length rs) - 100 = Suc (length rs - 100)" by simp
    with True snoc show ?thesis
      by (simp add: on_sensor_data_snoc readings_addReading tl_drop drop_Suc)
  next
    case False
    with snoc show ?thesis
      by (simp add: on_sensor_data_snoc readings_addReading)
  qed
qed

text \<open>
  Claim C5. The store never holds more than 100 readings: whatever sequence of readings is
  added to the empty store, after each of them (every prefix of the sequence) the length
  is at most 100, and \<open>addReading\<close> preserves the bound from any store that satisfies it.
\<close>

theorem readings_length_bounded:
  "length (readings (on_sensor_data rs store_init)) \<le> 100
   \<and> length (readings (on_sensor_data (take n rs) store_init)) \<le> 100
   \<and> readingCount (on_sensor_data rs store_init) = min (length rs) 100
   \<and> (length (readings s) \<le> 100 \<longrightarrow> length (readings (addReading r s)) \<le> 100)"
  by (auto simp add: readings_on_sensor_data readings_addReading readingCount_def)

theorem readings_length_bounded_witness:
  "length (readings \<lparr>readings = [0 ..< 100], storeIsMonitoring = True\<rparr>) \<le> 100
   \<and> length (readings (addReading 100 \<lparr>readings = [0 ..< 100], storeIsMonitoring = True\<rparr>)) \<le> 100"
proof -
  have full: "length (readings \<lparr>readings = [0 ..< 100], storeIsMonitoring = True\<rparr>) \<le> 100"
    by simp
  with readings_length_bounded
    [of "[] :: nat list" 0 "\<lparr>readings = [0 ..< 100], storeIsMonitoring = True\<rparr>" "100 :: nat"]
  show ?thesis by blast
qed

text \<open>
  Claim C6. Eviction is first in, first out: 101 readings added to the empty store leave
  the readings at indices 1 to 100, in order; any number of readings leaves the last 100
  of them in order; and one \<open>addReading\<close> on a full store drops the reading at index 0,
  keeps the others in order and puts the new one last, while below the capacity it only
  appends.
\<close>

theorem addReading_fifo:
  "(length rs = 101 \<longrightarrow> readings (on_sensor_data rs store_init) = tl rs)
   \<and> readings (on_sensor_data rs store_init) = drop (length rs - 100) rs
   \<and> (length (readings s) = 100 \<longrightarrow> readings (addReading r s) = tl (readings s) @ [r])
   \<and> (length (readings s) < 100 \<longrightarrow> readings (addReading r s) = readings s @ [r])"
proof -
  have "readings (on_sensor_data rs store_init) = tl rs" if "length rs = 101"
    using that by (simp add: readings_on_sensor_data drop_Suc)
  moreover have "readings (addReading r s) = tl (readings s) @ [r]"
    if "length (readings s) = 100"
  proof -
    from that have "readings s \<noteq> []" by auto
    with that show ?thesis by (simp add: readings_addReading)
  qed
  ultimately show ?thesis
    by (simp add: readings_on_sensor_data readings_addReading)
qed

theorem addReading_fifo_witness:
  "length [0 ..< 101] = 101
   \<and> readings (on_sensor_data [0 ..< 101] store_init) = [1 ..< 101]
   \<and> readings (addReading 100 \<lparr>readings = [0 ..< 100], storeIsMonitoring = True\<rparr>) = [1 ..< 101]
   \<and> readings (addReading 7 \<lparr>readings = [5, 6], storeIsMonitoring = True\<rparr>) = [5, 6, 7 :: nat]"
proof -
  have a: "length [0 ..< 101] = 101" by simp
  have b: "length (readings \<lparr>readings = [0 ..< 100], storeIsMonitoring = True\<rparr>) = 100"
    by simp
  have c: "length (readings \<lparr>readings = [5, 6 :: nat], storeIsMonitoring = True\<rparr>) < 100"
    by simp
  have d: "tl [0 ..< 101] = [1 ..< 101]" by (simp add: tl_upt)
  have e: "tl (readings \<lparr>readings = [0 ..< 100], storeIsMonitoring = True\<rparr>) @ [100] = [1 ..< 101]"
    by (simp add: tl_upt flip: upt_Suc_append)
  from addReading_fifo [of "[0 ..< 101]" "\<lparr>readings = [0 ..< 100], storeIsMonitoring = True\<rparr>" 100]
    addReading_fifo [of "[] :: nat list" "\<lparr>readings = [5, 6 :: nat], storeIsMonitoring = True\<rparr>" "7 :: nat"]
    a b c d e
  show ?thesis by simp
qed

text \<open>
  Claim C7. Stopping writes the monitoring flag and nothing else. In the store,
  \<open>setMonitoring false\<close> leaves the readings as they are, and so does the composable's
  \<open>stopMonitoring\<close> whether \<open>invoke\<close> succeeds or fails; hence anything computed from
  the readings (any function \<open>f\<close> of them, the latest reading, the count) is the same
  before and after. In the panel, \<open>stopMonitoring\<close> leaves \<open>hasData\<close> as it is, and the
  click changes neither the metrics display nor the timers.
\<close>

theorem stop_keeps_readings:
  "readings (setMonitoring False s) = readings s
   \<and> setMonitoring False s = s\<lparr>storeIsMonitoring := False\<rparr>
   \<and> readings (snd (useSensorMonitor_stopMonitoring res s)) = readings s
   \<and> f (readings (snd (useSensorMonitor_stopMonitoring res s))) = f (readings s)
   \<and> latestReading (snd (useSensorMonitor_stopMonitoring res s)) = latestReading s
   \<and> readingCount (snd (useSensorMonitor_stopMonitoring res s)) = readingCount s
   \<and> fst (stopMonitoring p) = p\<lparr>isMonitoring := False\<rparr>
   \<and> hasData (fst (stopMonitoring p)) = hasData p
   \<and> display (app_step (Clicked ClickStop) a) = display a
   \<and> timers (app_step (Clicked ClickStop) a) = timers a
   \<and> panel (app_step (Clicked ClickStop) a) = (panel a)\<lparr>isMonitoring := False\<rparr>"
  by (cases res)
    (simp_all add: setMonitoring_def useSensorMonitor_stopMonitoring_def latestReading_def
      readingCount_def stopMonitoring_def)

section \<open>Properties of the metrics display\<close>

text \<open>
  Claim C1, as the code has it. The period passed to \<open>setInterval\<close> is 1000 milliseconds,
  one tick a second: after \<open>onMounted\<close>, from any state of the component and of the
  timers, the component holds a timer of period 1000 that calls \<open>updateMetrics\<close>. The timer
  is set when the component is mounted; a click on the start button leaves the timers as
  they are.
\<close>

theorem interval_is_one_second:
  "tickIntervalMs (onMounted (d, T)) = Some 1000
   \<and> active (snd (onMounted (d, T))) (nextHandle T) = Some (UpdateMetrics, 1000)
   \<and> timers (app_step (Clicked ClickStart) a) = timers a
   \<and> tickIntervalMs (display (app_step Mounted a), timers (app_step Mounted a)) = Some 1000"
  by (simp add: tickIntervalMs_def onMounted_def setInterval_def startMonitoring_def)

text \<open>Claim C1 as stated fails: the period of the timer set by \<open>onMounted\<close> is not 100.\<close>

theorem interval_100ms_counterexample:
  "tickIntervalMs (onMounted (display_init [], timers_init)) \<noteq> Some 100"
  by (simp add: tickIntervalMs_def onMounted_def setInterval_def)

subsection \<open>Rounding\<close>

text \<open>
  Rounding to the nearest number does not cross a multiple of the unit it rounds to, and
  an exact result below the middle of two neighbours goes to the lower one.
\<close>

lemma round_shift_cases:
  "round_shift k m = m div 2 ^ k \<or> round_shift k m = m div 2 ^ k + 1"
  by (simp add: round_shift_def Let_def)

lemma round_shift_ge:
  assumes "n * 2 ^ k \<le> m"
  shows "n \<le> round_shift k m"
proof -
  have "(n * 2 ^ k) div 2 ^ k \<le> m div 2 ^ k"
    using assms by (rule zdiv_mono1) simp
  then have "n \<le> m div 2 ^ k" by simp
  with round_shift_cases [of k m] show ?thesis by auto
qed

lemma round_shift_le:
  assumes "m \<le> n * 2 ^ k"
  shows "round_shift k m \<le> n"
proof -
  define p :: int where "p = 2 ^ k"
  define q where "q = m div p"
  define r where "r = m mod p"
  have p: "0 < p" by (simp add: p_def)
  have m: "m = q * p + r" by (simp add: q_def r_def)
  have r: "0 \<le> r" "r < p" using p by (simp_all add: r_def)
  have "m div p \<le> (n * p) div p"
    using assms p unfolding p_def by (intro zdiv_mono1) simp_all
  with p have qn: "q \<le> n" by (simp add: q_def)
  show ?thesis
  proof (cases "q = n")
    case True
    with m assms have "r \<le> 0" by (simp add: p_def)
    with r have "r = 0" by simp
    with p True show ?thesis
      by (simp add: round_shift_def Let_def q_def [symmetric] r_def [symmetric] p_def [symmetric])
  next
    case False
    with qn have "q + 1 \<le> n" by simp
    with round_shift_cases [of k m] show ?thesis
      by (auto simp add: q_def p_def)
  qed
qed

lemma round_shift_less:
  assumes "2 * m < (2 * n - 1) * 2 ^ k"
  shows "round_shift k m < n"
proof -
  define p :: int where "p = 2 ^ k"
  define q where "q = m div p"
  define r where "r = m mod p"
  have p: "0 < p" by (simp add: p_def)
  have m: "m = q * p + r" by (simp add: q_def r_def)
  have r: "0 \<le> r" "r < p" using p by (simp_all add: r_def)
  from assms have a: "2 * m < (2 * n - 1) * p" by (simp add: p_def)
  from m r have "(2 * q) * p \<le> 2 * m" by simp
  with a have "(2 * q) * p < (2 * n - 1) * p" by simp
  with p have "2 * q < 2 * n - 1" by (simp only: mult_less_cancel_right_pos)
  then have qn: "q \<le> n - 1" by simp
  show ?thesis
  proof (cases "q = n - 1")
    case True
    from True have "n = q + 1" by simp
    then have "(2 * n - 1) * p = 2 * (q * p) + p" by (simp add: algebra_simps)
    moreover from a m have "2 * (q * p) + 2 * r < (2 * n - 1) * p" by simp
    ultimately have "2 * r < p" by simp
    with True show ?thesis
      by (simp add: round_shift_def Let_def q_def [symmetric] r_def [symmetric] p_def [symmetric])
  next
    case False
    with qn have "q + 1 < n" by simp
    with round_shift_cases [of k m] show ?thesis
      by (auto simp add: q_def p_def)
  qed
qed


lemma dval_nonpos_exponent:
  "snd d \<le> 0 \<Longrightarrow> dval d = of_int (fst d) / 2 ^ nat (- snd d)"
  by (cases "snd d = 0") (simp_all add: dval_def)

lemma dval_le_iff:
  assumes "e \<le> 0"
  shows "(dval (m, e) \<le> of_int c) = (m \<le> c * 2 ^ nat (- e))"
proof -
  have "(dval (m, e) \<le> of_int c) = ((of_int m :: real) \<le> of_int (c * 2 ^ nat (- e)))"
    using assms by (simp add: dval_nonpos_exponent pos_divide_le_eq)
  then show ?thesis by (simp only: of_int_le_iff)
qed

lemma dval_ge_iff:
  assumes "e \<le> 0"
  shows "(of_int c \<le> dval (m, e)) = (c * 2 ^ nat (- e) \<le> m)"
proof -
  have "(of_int c \<le> dval (m, e)) = ((of_int (c * 2 ^ nat (- e)) :: real) \<le> of_int m)"
    using assms by (simp add: dval_nonpos_exponent pos_le_divide_eq)
  then show ?thesis by (simp only: of_int_le_iff)
qed

lemma dval_less_iff:
  assumes "e \<le> 0"
  shows "(dval (m, e) < of_int c) = (m < c * 2 ^ nat (- e))"
proof -
  have "(dval (m, e) < of_int c) = ((of_int m :: real) < of_int (c * 2 ^ nat (- e)))"
    using assms by (simp add: dval_nonpos_exponent pos_divide_less_eq)
  then show ?thesis by (simp only: of_int_less_iff)
qed

lemma dval_nonneg_iff: "(0 \<le> dval d) = (0 \<le> fst d)"
proof -
  have "\<not> (2::real) ^ n \<le> 0" for n by (simp add: not_le)
  then show ?thesis
    by (simp add: dval_def zero_le_mult_iff zero_le_divide_iff)
qed

lemma dval_zero: "fst d = 0 \<Longrightarrow> dval d = 0"
  by (simp add: dval_def)

lemma dval_powi: "dval d = of_int (fst d) * 2 powi snd d"
  by (simp add: dval_def power_int_def field_simps)

lemma dval_scale: "dval (m * c, e) = of_int c * dval (m, e)"
  by (simp add: dval_def)

lemma dval_exact_sum: "dval (exact_sum a b) = dval a + dval b"
proof -
  define e where "e = min (snd a) (snd b)"
  have p: "(2::real) ^ nat (j - e) * 2 powi e = 2 powi j" if "e \<le> j" for j
  proof -
    from that have "(2::real) ^ nat (j - e) = 2 powi (j - e)"
      by (simp add: power_int_def)
    then show ?thesis by (simp add: power_int_add [symmetric])
  qed
  have "e \<le> snd a" "e \<le> snd b" by (simp_all add: e_def)
  then have "(2::real) ^ nat (snd a - e) * 2 powi e = 2 powi snd a"
    and "(2::real) ^ nat (snd b - e) * 2 powi e = 2 powi snd b"
    by (simp_all add: p)
  then show ?thesis
    by (simp add: dval_powi exact_sum_def Let_def e_def [symmetric] algebra_simps)
qed

lemma shift_exponent:
  assumes "snd d \<le> 0" and "bitlen \<bar>fst d\<bar> + snd d \<le> 53"
  shows "snd d + int (shift d) \<le> 0"
  using assms by (simp add: shift_def max_def)

lemma bitlen_from_bound:
  assumes "0 \<le> m" and "m \<le> c * 2 ^ n" and "c < 2 ^ w"
  shows "bitlen \<bar>m\<bar> \<le> int w + int n"
proof -
  from assms(3) have "c * 2 ^ n < 2 ^ w * 2 ^ n" by simp
  with assms(2) have "m < 2 ^ w * 2 ^ n" by (rule le_less_trans)
  then have "m < 2 ^ (w + n)" by (simp add: power_add)
  then have "bitlen m \<le> int (w + n)"
    by (simp only: bitlen_le_iff_power nat_int of_nat_0_le_iff simp_thms)
  with assms(1) show ?thesis by simp
qed

lemma dround_nonneg: "0 \<le> fst d \<Longrightarrow> 0 \<le> fst (dround d)"
  using round_shift_ge [of 0 "shift d" "fst d"] by (simp add: dround_def)

lemma dround_bounds:
  assumes e: "snd d \<le> 0" and b: "bitlen \<bar>fst d\<bar> + snd d \<le> 53"
  shows "snd (dround d) \<le> 0"
    and "of_int c \<le> dval d \<Longrightarrow> of_int c \<le> dval (dround d)"
    and "dval d \<le> of_int c \<Longrightarrow> dval (dround d) \<le> of_int c"
proof -
  define k where "k = shift d"
  define e' where "e' = snd d + int k"
  have e': "e' \<le> 0"
    using shift_exponent [OF e b] by (simp add: e'_def k_def)
  have r: "dround d = (round_shift k (fst d), e')"
    by (simp add: dround_def k_def e'_def)
  from e e' have "nat (- snd d) = nat (- e') + k" by (simp add: e'_def)
  then have pw: "(2::int) ^ nat (- snd d) = 2 ^ nat (- e') * 2 ^ k"
    by (simp add: power_add)
  show "snd (dround d) \<le> 0" using e' by (simp add: r)
  show "of_int c \<le> dval (dround d)" if "of_int c \<le> dval d"
  proof -
    from that e have "c * 2 ^ nat (- snd d) \<le> fst d"
      using dval_ge_iff [of "snd d" c "fst d"] by simp
    then have "(c * 2 ^ nat (- e')) * 2 ^ k \<le> fst d" by (simp add: pw mult.assoc)
    then have "c * 2 ^ nat (- e') \<le> round_shift k (fst d)" by (rule round_shift_ge)
    with e' show ?thesis by (simp add: r dval_ge_iff)
  qed
  show "dval (dround d) \<le> of_int c" if "dval d \<le> of_int c"
  proof -
    from that e have "fst d \<le> c * 2 ^ nat (- snd d)"
      using dval_le_iff [of "snd d" "fst d" c] by simp
    then have "fst d \<le> (c * 2 ^ nat (- e')) * 2 ^ k" by (simp add: pw mult.assoc)
    then have "round_shift k (fst d) \<le> c * 2 ^ nat (- e')" by (rule round_shift_le)
    with e' show ?thesis by (simp add: r dval_le_iff)
  qed
qed


lemma div_less_bound:
  assumes "0 < (p::int)" and "q < n * p"
  shows "q div p < n"
proof (rule ccontr)
  assume "\<not> q div p < n"
  then have "n \<le> q div p" by simp
  with assms(1) have "n * p \<le> (q div p) * p" by (simp add: mult_right_mono)
  moreover have "q = (q div p) * p + q mod p" by simp
  moreover from assms(1) have "0 \<le> q mod p" by simp
  ultimately show False using assms(2) by linarith
qed

lemma round_shift_zero: "round_shift k 0 = 0"
  by (simp add: round_shift_def)

lemma random_cases:
  assumes "Math_random r"
  shows "0 \<le> fst r" and "- 1074 \<le> snd r" and "fst r < 2 ^ 53"
    and "fst r \<noteq> 0 \<Longrightarrow> snd r < 0 \<and> fst r < 2 ^ nat (- snd r)"
proof -
  from assms have d: "is_double r" and v0: "0 \<le> dval r" and v1: "dval r < 1"
    by (simp_all add: Math_random_def)
  show m0: "0 \<le> fst r" using v0 by (simp add: dval_nonneg_iff)
  show "- 1074 \<le> snd r" and "fst r < 2 ^ 53" using d m0 by (auto simp add: is_double_def)
  show "snd r < 0 \<and> fst r < 2 ^ nat (- snd r)" if "fst r \<noteq> 0"
  proof -
    from that m0 have m1: "1 \<le> fst r" by simp
    have e: "snd r < 0"
    proof (rule ccontr)
      assume "\<not> snd r < 0"
      then have v: "dval r = of_int (fst r) * 2 ^ nat (snd r)" by (simp add: dval_def)
      from m1 have "(1::real) * 1 \<le> of_int (fst r) * 2 ^ nat (snd r)"
        by (intro mult_mono) simp_all
      with v v1 show False by simp
    qed
    from v1 have "dval (fst r, snd r) < of_int 1" by simp
    with e have "fst r < 1 * 2 ^ nat (- snd r)"
      by (simp only: dval_less_iff [of "snd r" "fst r" 1] order.strict_implies_order)
    with e show ?thesis by simp
  qed
qed

lemma dmul_random:
  assumes r: "Math_random r" and c: "0 < c" "c \<le> 100"
  shows "0 \<le> fst (dmul r (c, 0))" and "dval (dmul r (c, 0)) \<le> of_int c"
proof -
  let ?d = "(fst r * c, snd r)"
  have dm: "dmul r (c, 0) = dround ?d" by (simp add: dmul_def)
  from random_cases(1) [OF r] c have nn: "0 \<le> fst ?d" by simp
  with dround_nonneg [of ?d] show "0 \<le> fst (dmul r (c, 0))" by (simp add: dm)
  show "dval (dmul r (c, 0)) \<le> of_int c"
  proof (cases "fst r = 0")
    case True
    then have "fst (dround ?d) = 0" by (simp add: dround_def round_shift_zero)
    then have "dval (dround ?d) = 0" by (rule dval_zero)
    with c show ?thesis by (simp add: dm)
  next
    case False
    with random_cases(4) [OF r] have e: "snd r < 0" and m: "fst r < 2 ^ nat (- snd r)"
      by simp_all
    from m c have le: "fst r * c \<le> c * 2 ^ nat (- snd r)" by simp
    from c have "c < 2 ^ 7" by simp
    with nn le have "bitlen \<bar>fst ?d\<bar> \<le> int 7 + int (nat (- snd r))"
      using bitlen_from_bound [of "fst r * c" c "nat (- snd r)" 7] by simp
    with e have b: "bitlen \<bar>fst ?d\<bar> + snd ?d \<le> 53" by simp
    from le e have "dval ?d \<le> of_int c" by (simp add: dval_le_iff)
    with e b show ?thesis
      using dround_bounds(3) [of ?d c] by (simp add: dm)
  qed
qed

lemma dadd_bounds:
  assumes "0 \<le> A" and "0 \<le> fst b" and "dval b \<le> of_int B" and "A + B \<le> 100"
  shows "of_int A \<le> dval (dadd (A, 0) b)" and "dval (dadd (A, 0) b) \<le> of_int (A + B)"
proof -
  define s where "s = exact_sum (A, 0) b"
  have e: "snd s \<le> 0" by (simp add: s_def exact_sum_def Let_def)
  have "dval s = dval (A, 0) + dval b" by (simp only: s_def dval_exact_sum)
  moreover have "dval (A, 0) = of_int A" by (simp add: dval_def)
  ultimately have v: "dval s = of_int A + dval b" by simp
  from assms(2) have b0: "0 \<le> dval b" by (simp add: dval_nonneg_iff)
  with v assms(1) have "0 \<le> dval s" by simp
  then have nn: "0 \<le> fst s" by (simp add: dval_nonneg_iff)
  from v b0 have lo: "of_int A \<le> dval s" by simp
  from v assms(3) have up: "dval s \<le> of_int (A + B)" by simp
  then have "dval (fst s, snd s) \<le> of_int (A + B)" by simp
  with e have le: "fst s \<le> (A + B) * 2 ^ nat (- snd s)"
    by (simp only: dval_le_iff)
  from assms(4) have "A + B < 2 ^ 7" by simp
  with nn le have "bitlen \<bar>fst s\<bar> \<le> int 7 + int (nat (- snd s))"
    by (rule bitlen_from_bound)
  with e have b: "bitlen \<bar>fst s\<bar> + snd s \<le> 53" by simp
  show "of_int A \<le> dval (dadd (A, 0) b)"
    unfolding dadd_def s_def [symmetric] by (rule dround_bounds(2) [OF e b lo])
  show "dval (dadd (A, 0) b) \<le> of_int (A + B)"
    unfolding dadd_def s_def [symmetric] by (rule dround_bounds(3) [OF e b up])
qed

lemma floor_dmul_random:
  assumes r: "Math_random r"
  shows "0 \<le> Math_floor (dmul r (100, 0))" and "Math_floor (dmul r (100, 0)) \<le> 99"
proof -
  define d :: double where "d = (fst r * 100, snd r)"
  define k where "k = shift d"
  define e' where "e' = snd r + int k"
  define q where "q = round_shift k (fst d)"
  have dm: "dmul r (100, 0) = (q, e')"
    by (simp add: dmul_def dround_def d_def k_def e'_def q_def)
  from random_cases(1) [OF r] have nn: "0 \<le> fst d" by (simp add: d_def)
  then have q0: "0 \<le> q"
    using round_shift_ge [of 0 k "fst d"] by (simp add: q_def)
  have "0 \<le> Math_floor (q, e') \<and> Math_floor (q, e') \<le> 99"
  proof (cases "fst r = 0")
    case True
    then have "q = 0" by (simp add: q_def d_def round_shift_zero)
    then show ?thesis by (simp add: Math_floor_def)
  next
    case False
    with random_cases(4) [OF r] have e: "snd r < 0" and m: "fst r < 2 ^ nat (- snd r)"
      by simp_all
    from m have le: "fst d \<le> 100 * 2 ^ nat (- snd r)" by (simp add: d_def)
    have "(100::int) < 2 ^ 7" by simp
    with nn le have "bitlen \<bar>fst d\<bar> \<le> int 7 + int (nat (- snd r))"
      by (rule bitlen_from_bound)
    with e have b: "bitlen \<bar>fst d\<bar> + snd d \<le> 53" by (simp add: d_def)
    from e have e0: "snd d \<le> 0" by (simp add: d_def)
    from shift_exponent [OF e0 b] have e': "e' \<le> 0" by (simp add: e'_def k_def d_def)
    from random_cases(3) [OF r] have "fst d \<le> 100 * 2 ^ 53" by (simp add: d_def)
    with nn have "bitlen \<bar>fst d\<bar> \<le> int 7 + int 53"
      using bitlen_from_bound [of "fst d" 100 53 7] by simp
    with random_cases(2) [OF r] have "k \<le> 7" by (simp add: k_def shift_def d_def)
    then have "(2::int) ^ k \<le> 2 ^ 7" by (intro power_increasing) simp_all
    then have k: "(2::int) ^ k < 200" by simp
    from e e' have "nat (- snd r) = nat (- e') + k" by (simp add: e'_def)
    then have pw: "(2::int) ^ nat (- snd r) = 2 ^ nat (- e') * 2 ^ k"
      by (simp add: power_add)
    from m have "fst r + 1 \<le> 2 ^ nat (- snd r)" by simp
    then have "200 * (fst r + 1) \<le> 200 * 2 ^ nat (- snd r)" by simp
    with k have "2 * fst d < 200 * 2 ^ nat (- snd r) - 2 ^ k" by (simp add: d_def)
    also have "\<dots> = (2 * (100 * 2 ^ nat (- e')) - 1) * 2 ^ k"
      by (simp add: pw algebra_simps)
    finally have "q < 100 * 2 ^ nat (- e')"
      unfolding q_def by (rule round_shift_less)
    then have "q div 2 ^ nat (- e') < 100"
      by (intro div_less_bound) simp_all
    moreover from q0 have "0 \<le> q div 2 ^ nat (- e')"
      by (simp add: pos_imp_zdiv_nonneg_iff)
    moreover from e' have "Math_floor (q, e') = q div 2 ^ nat (- e')"
      by (cases "e' = 0") (simp_all add: Math_floor_def)
    ultimately show ?thesis by simp
  qed
  then show "0 \<le> Math_floor (dmul r (100, 0))" and "Math_floor (dmul r (100, 0)) \<le> 99"
    by (simp_all add: dm)
qed

subsection \<open>The generated metrics\<close>

text \<open>
  Claim C3, as the code has it. For every number that \<open>Math.random()\<close> can return (from
  0 up to, not including, 1), the laser intensity is a whole number from 0 to 99, the
  temperature is from 25 to 35 and the measurement rate is from 5 to 20, the ends included:
  rounding can reach 35 and 20. These are the ranges of the formulas of \<open>updateMetrics\<close>;
  nothing is clamped.
\<close>

theorem updateMetrics_ranges:
  assumes "Math_random r1" and "Math_random r2" and "Math_random r3"
  shows "0 \<le> laserIntensity (metrics (updateMetrics r1 r2 r3 now d))
    \<and> laserIntensity (metrics (updateMetrics r1 r2 r3 now d)) \<le> 99
    \<and> laserIntensity (metrics (updateMetrics r1 r2 r3 now d)) \<in> \<int>
    \<and> 25 \<le> temperature (metrics (updateMetrics r1 r2 r3 now d))
    \<and> temperature (metrics (updateMetrics r1 r2 r3 now d)) \<le> 35
    \<and> 5 \<le> measurementRate (metrics (updateMetrics r1 r2 r3 now d))
    \<and> measurementRate (metrics (updateMetrics r1 r2 r3 now d)) \<le> 20"
proof -
  from floor_dmul_random [OF assms(1)]
  have i: "(0::real) \<le> of_int (Math_floor (dmul r1 (100, 0)))"
    "(of_int (Math_floor (dmul r1 (100, 0))) :: real) \<le> 99"
    by simp_all
  from dmul_random [OF assms(2), of 10]
  have p2: "0 \<le> fst (dmul r2 (10, 0))" "dval (dmul r2 (10, 0)) \<le> of_int 10"
    by simp_all
  from dadd_bounds [OF _ p2, of 25]
  have t: "25 \<le> dval (dadd (25, 0) (dmul r2 (10, 0)))"
    "dval (dadd (25, 0) (dmul r2 (10, 0))) \<le> 35"
    by simp_all
  from dmul_random [OF assms(3), of 15]
  have p3: "0 \<le> fst (dmul r3 (15, 0))" "dval (dmul r3 (15, 0)) \<le> of_int 15"
    by simp_all
  from dadd_bounds [OF _ p3, of 5]
  have m: "5 \<le> dval (dadd (5, 0) (dmul r3 (15, 0)))"
    "dval (dadd (5, 0) (dmul r3 (15, 0))) \<le> 20"
    by simp_all
  from i t m show ?thesis
    by (simp add: updateMetrics_def)
qed

text \<open>
  The greatest number below 1 is \<open>(2 ^ 53 - 1) / 2 ^ 53\<close>. With it the laser intensity
  is 99, the temperature is 35 and the measurement rate is 20.
\<close>

theorem updateMetrics_ranges_witness:
  "Math_random (9007199254740991, - 53)
   \<and> laserIntensity (metrics (updateMetrics (9007199254740991, - 53) (9007199254740991, - 53)
        (9007199254740991, - 53) ''t'' (display_init ''t0''))) = 99
   \<and> temperature (metrics (updateMetrics (9007199254740991, - 53) (9007199254740991, - 53)
        (9007199254740991, - 53) ''t'' (display_init ''t0''))) = 35
   \<and> measurementRate (metrics (updateMetrics (9007199254740991, - 53) (9007199254740991, - 53)
        (9007199254740991, - 53) ''t'' (display_init ''t0''))) = 20"
proof -
  have r: "Math_random (9007199254740991, - 53)"
    by (simp add: Math_random_def is_double_def dval_def)
  from updateMetrics_ranges [OF r r r, of "''t''" "display_init ''t0''"] r
  show ?thesis
    by (simp add: updateMetrics_def Math_floor_def dval_def dadd_def dmul_def dround_def
        shift_def round_shift_def exact_sum_def compute_bitlen)
qed

text \<open>
  Claim C3 as stated fails on the documented ranges: with every value of
  \<open>Math.random()\<close> equal to one half, the temperature is 30, outside 20 to 25, and the
  laser intensity is 50, outside 500 to 2000.
\<close>

theorem documented_ranges_counterexample:
  "Math_random (1, - 1)
   \<and> \<not> in_bounds (temperature (metrics (updateMetrics (1, - 1) (1, - 1) (1, - 1) [] (display_init []))))
          documented_temperature
   \<and> \<not> in_bounds (laserIntensity (metrics (updateMetrics (1, - 1) (1, - 1) (1, - 1) [] (display_init []))))
          documented_intensity"
  by (simp add: Math_random_def is_double_def in_bounds_def documented_temperature_def
      documented_intensity_def updateMetrics_def Math_floor_def dval_def dadd_def dmul_def
      dround_def shift_def round_shift_def exact_sum_def compute_bitlen)

text \<open>
  No clamp: on the number 2, outside the range of \<open>Math.random()\<close>, the formula of the
  temperature leaves its range.
\<close>

lemma updateMetrics_no_clamp:
  "temperature (metrics (updateMetrics (2, 0) (2, 0) (2, 0) [] (display_init []))) = 45"
  by (simp add: updateMetrics_def dval_def dadd_def dmul_def dround_def shift_def
      round_shift_def exact_sum_def compute_bitlen)

text \<open>
  Rounding at work. The number written 0.049999999999999996 is
  \<open>7205759403792793 / 2 ^ 57\<close>; a hundred times it is below 5, and rounds to 5. One half
  gives 50, 30 and 12.5 with no rounding.
\<close>

lemma updateMetrics_rounds:
  "Math_random (7205759403792793, - 57)
   \<and> dval (7205759403792793, - 57) * 100 < 5
   \<and> laserIntensity (metrics (updateMetrics (7205759403792793, - 57) (1, - 1) (1, - 1) []
        (display_init []))) = 5
   \<and> metrics (updateMetrics (1, - 1) (1, - 1) (1, - 1) ''t'' (display_init []))
       = \<lparr>laserIntensity = 50, temperature = 30, measurementRate = 25 / 2, timestamp = ''t''\<rparr>"
  by (simp add: Math_random_def is_double_def updateMetrics_def Math_floor_def dval_def
      dadd_def dmul_def dround_def shift_def round_shift_def exact_sum_def compute_bitlen)

section \<open>Properties of the page\<close>

lemma app_step_no_lifecycle:
  "\<not> lifecycle e \<Longrightarrow>
     timers (app_step e a) = timers a
     \<and> updateInterval (display (app_step e a)) = updateInterval (display a)"
  by (cases e)
    (auto simp add: updateMetrics_def split: prod.splits option.splits Callback.splits)

lemma app_steps_no_lifecycle:
  "\<forall>e \<in> set es. \<not> lifecycle e \<Longrightarrow>
     timers (app_steps es a) = timers a
     \<and> updateInterval (display (app_steps es a)) = updateInterval (display a)"
proof (induction es arbitrary: a)
  case Nil
  show ?case by (simp add: app_steps_def)
next
  case (Cons e es)
  from Cons.prems have e: "\<not> lifecycle e" and es: "\<forall>e \<in> set es. \<not> lifecycle e"
    by simp_all
  have "app_steps (e # es) a = app_steps es (app_step e a)"
    by (simp add: app_steps_def)
  with Cons.IH [OF es, of "app_step e a"] app_step_no_lifecycle [OF e, of a]
  show ?case by simp
qed

lemma mounted_then_unmounted:
  assumes "\<forall>e \<in> set es. \<not> lifecycle e"
  shows "active (timers (app_steps (Mounted # es @ [Unmounted]) a))
    = (active (timers a))(nextHandle (timers a) := None)"
proof -
  let ?m = "app_step Mounted a"
  have m: "updateInterval (display ?m) = Some (nextHandle (timers a))"
    "active (timers ?m) = (active (timers a))(nextHandle (timers a) \<mapsto> (UpdateMetrics, 1000))"
    by (simp_all add: onMounted_def setInterval_def)
  from app_steps_no_lifecycle [OF assms, of ?m]
  have k: "timers (app_steps es ?m) = timers ?m"
    "updateInterval (display (app_steps es ?m)) = updateInterval (display ?m)"
    by simp_all
  have "app_steps (Mounted # es @ [Unmounted]) a = app_step Unmounted (app_steps es ?m)"
    by (simp add: app_steps_def)
  with k m show ?thesis
    by (simp add: onUnmounted_def clearInterval_def)
qed

text \<open>
  Claim C2, as the code has it. The timer of the display runs from \<open>onMounted\<close> to
  \<open>onUnmounted\<close>, whatever \<open>isMonitoring\<close> is. A click, \<open>stopMonitoring\<close> included,
  leaves the timers and the display as they are, so a timer that is active before the stop
  still fires after it and its tick replaces the metrics. \<open>onUnmounted\<close> clears the timer
  whose handle the component holds, and a tick of that handle then does nothing; over a
  whole life of the component (mounted once, any clicks and ticks, unmounted) no timer is
  left and no tick of any handle does anything.
\<close>

theorem timer_runs_while_mounted:
  "timers (app_step (Clicked c) a) = timers a
   \<and> display (app_step (Clicked c) a) = display a
   \<and> (active (timers a) h \<noteq> None \<longrightarrow>
        display (app_step (TimerFired h r1 r2 r3 now) (app_step (Clicked ClickStop) a))
          = updateMetrics r1 r2 r3 now (display a))
   \<and> (updateInterval (display a) = Some h \<longrightarrow>
        active (timers (app_step Unmounted a)) h = None
        \<and> app_step (TimerFired h r1 r2 r3 now) (app_step Unmounted a) = app_step Unmounted a)
   \<and> ((\<forall>e \<in> set es. \<not> lifecycle e) \<longrightarrow>
        active (timers (app_steps (Mounted # es @ [Unmounted]) (app_init t0))) = Map.empty
        \<and> app_step (TimerFired h r1 r2 r3 now) (app_steps (Mounted # es @ [Unmounted]) (app_init t0))
            = app_steps (Mounted # es @ [Unmounted]) (app_init t0))"
proof -
  have clicks: "timers (app_step (Clicked c) a) = timers a"
    "display (app_step (Clicked c) a) = display a"
    by (simp_all split: prod.splits)
  have tick: "display (app_step (TimerFired h r1 r2 r3 now) (app_step (Clicked ClickStop) a))
      = updateMetrics r1 r2 r3 now (display a)" if "active (timers a) h \<noteq> None"
    using that by (auto simp add: stopMonitoring_def split: option.splits Callback.splits)
  have unmount: "active (timers (app_step Unmounted a)) h = None
      \<and> app_step (TimerFired h r1 r2 r3 now) (app_step Unmounted a) = app_step Unmounted a"
    if "updateInterval (display a) = Some h"
    using that by (simp add: onUnmounted_def clearInterval_def)
  have life: "active (timers (app_steps (Mounted # es @ [Unmounted]) (app_init t0))) = Map.empty
      \<and> app_step (TimerFired h r1 r2 r3 now) (app_steps (Mounted # es @ [Unmounted]) (app_init t0))
          = app_steps (Mounted # es @ [Unmounted]) (app_init t0)"
    if "\<forall>e \<in> set es. \<not> lifecycle e"
  proof -
    from mounted_then_unmounted [OF that, of "app_init t0"]
    have "active (timers (app_steps (Mounted # es @ [Unmounted]) (app_init t0))) = Map.empty"
      by (simp add: app_init_def timers_init_def)
    then show ?thesis by simp
  qed
  from clicks tick unmount life show ?thesis by blast
qed

theorem timer_runs_while_mounted_witness:
  "active (timers stopped_while_mounted) 1 \<noteq> None
   \<and> updateInterval (display stopped_while_mounted) = Some 1
   \<and> \<not> lifecycle (Clicked ClickStart) \<and> \<not> lifecycle (TimerFired 1 (0, 0) (0, 0) (0, 0) ''t1'')
   \<and> \<not> lifecycle (Clicked ClickStop)
   \<and> display (app_step (TimerFired 1 (0, 0) (0, 0) (0, 0) ''t1'') (app_step (Clicked ClickStop) stopped_while_mounted))
       = updateMetrics (0, 0) (0, 0) (0, 0) ''t1'' (display stopped_while_mounted)
   \<and> active (timers (app_step Unmounted stopped_while_mounted)) 1 = None
   \<and> app_step (TimerFired 1 (0, 0) (0, 0) (0, 0) ''t1'')
        (app_steps (Mounted # [Clicked ClickStart, TimerFired 1 (0, 0) (0, 0) (0, 0) ''t1'', Clicked ClickStop] @ [Unmounted])
           (app_init ''t0''))
      = app_steps (Mounted # [Clicked ClickStart, TimerFired 1 (0, 0) (0, 0) (0, 0) ''t1'', Clicked ClickStop] @ [Unmounted])
          (app_init ''t0'')"
proof -
  have a: "active (timers stopped_while_mounted) 1 \<noteq> None"
    and b: "updateInterval (display stopped_while_mounted) = Some 1"
    by (simp_all add: stopped_while_mounted_def app_steps_def app_init_def panel_init_def
      display_init_def timers_init_def onMounted_def setInterval_def startMonitoring_def
      stopMonitoring_def)
  have l: "\<not> lifecycle (Clicked ClickStart)" "\<not> lifecycle (TimerFired 1 (0, 0) (0, 0) (0, 0) ''t1'')"
    "\<not> lifecycle (Clicked ClickStop)"
    by simp_all
  then have c: "\<forall>e \<in> set [Clicked ClickStart, TimerFired 1 (0, 0) (0, 0) (0, 0) ''t1'', Clicked ClickStop]. \<not> lifecycle e"
    by simp
  from timer_runs_while_mounted [of ClickStop stopped_while_mounted 1 "(0, 0)" "(0, 0)" "(0, 0)" "''t1''"
      "[Clicked ClickStart, TimerFired 1 (0, 0) (0, 0) (0, 0) ''t1'', Clicked ClickStop]" "''t0''"] a b c l
  show ?thesis by blast
qed

text \<open>
  Claim C2 as stated fails: after mounting, starting and stopping, \<open>isMonitoring\<close> is
  false and the timer of period 1000 is still there; when it fires, \<open>updateMetrics\<close> runs
  and the display shows new metrics.
\<close>

theorem tick_while_stopped_counterexample:
  "\<not> isMonitoring (panel stopped_while_mounted)
   \<and> emitted stopped_while_mounted = [EmitStart, EmitStop]
   \<and> tickIntervalMs (display stopped_while_mounted, timers stopped_while_mounted) = Some 1000
   \<and> metrics (display stopped_while_mounted)
       = \<lparr>laserIntensity = 0, temperature = 25, measurementRate = 10, timestamp = ''t0''\<rparr>
   \<and> metrics (display (app_step (TimerFired 1 (1, - 1) (1, - 1) (1, - 1) ''t1'') stopped_while_mounted))
       = \<lparr>laserIntensity = 50, temperature = 30, measurementRate = 25/2, timestamp = ''t1''\<rparr>
   \<and> metrics (display (app_step (TimerFired 1 (1, - 1) (1, - 1) (1, - 1) ''t1'') stopped_while_mounted))
       \<noteq> metrics (display stopped_while_mounted)"
  by (simp add: stopped_while_mounted_def app_steps_def app_init_def panel_init_def
      display_init_def timers_init_def onMounted_def setInterval_def startMonitoring_def
      stopMonitoring_def tickIntervalMs_def updateMetrics_def Math_floor_def dval_def dadd_def
      dmul_def dround_def shift_def round_shift_def exact_sum_def compute_bitlen)

section \<open>Properties of the statistics\<close>

text \<open>
  Claim C8. On the empty input \<open>compute\<close> returns count 0 and every other aggregate
  undefined (\<open>None\<close>), and the empty input is the only one with count 0 or with an
  undefined aggregate: the count tells "no data" from a value of zero. \<open>compute\<close> is a
  total function, and its branch for the empty input divides nothing.
\<close>

theorem compute_empty:
  "compute [] = \<lparr>count = 0, mean = None, minimum = None, maximum = None, std_dev = None\<rparr>
   \<and> (count (compute xs) = 0) = (xs = [])
   \<and> (mean (compute xs) = None) = (xs = [])
   \<and> (minimum (compute xs) = None) = (xs = [])
   \<and> (maximum (compute xs) = None) = (xs = [])
   \<and> (std_dev (compute xs) = None) = (xs = [])
   \<and> count (compute xs) = length xs"
  by (cases xs) (simp_all add: compute_def Let_def)

text \<open>
  The example of the specification, section 8, and an input whose aggregates are zero.
\<close>

lemma compute_example:
  "compute [10, 20, 30] =
     \<lparr>count = 3, mean = Some 20, minimum = Some 10, maximum = Some 30,
      std_dev = Some (sqrt (200 / 3))\<rparr>"
  by (simp add: compute_def Let_def)

lemma compute_zero_value:
  "compute [0] =
     \<lparr>count = 1, mean = Some 0, minimum = Some 0, maximum = Some 0, std_dev = Some 0\<rparr>"
  by (simp add: compute_def Let_def)

end
